theory Spec2Isabelle
  imports Main
begin

section \<open>Discord recipient targets (src/discord/targets.ts)\<close>

text \<open>
  A shallow embedding of \<^verbatim>\<open>parseDiscordTarget\<close>, \<^verbatim>\<open>resolveDiscordChannelId\<close>,
  \<^verbatim>\<open>resolveDiscordTarget\<close> and their private helpers.

  A JavaScript string is a sequence of UTF-16 code units. The model uses \<^typ>\<open>string\<close>,
  reading each \<^typ>\<open>char\<close> as the code unit of the same number, so it covers exactly the
  strings whose code units are below 256 (ASCII and the Latin-1 supplement). On that range
  \<^verbatim>\<open>trim\<close>, \<^verbatim>\<open>toLowerCase\<close> and the regular expressions of the source are modelled
  in full.
\<close>

subsection \<open>String primitives of the language\<close>

text \<open>The regular expression class \<^verbatim>\<open>\d\<close> (no unicode flag): the ten ASCII digits.\<close>

definition isDigit :: "char \<Rightarrow> bool" where
  "isDigit c = (48 \<le> (of_char c :: nat) \<and> (of_char c :: nat) \<le> 57)"

text \<open>
  What \<^verbatim>\<open>String.prototype.trim\<close> strips: WhiteSpace and LineTerminator code units.
  Below 256 these are TAB, LF, VT, FF, CR, SPACE and NO-BREAK SPACE.
\<close>

definition isWhiteSpace :: "char \<Rightarrow> bool" where
  "isWhiteSpace c = ((of_char c :: nat) \<in> {9, 10, 11, 12, 13, 32, 160})"

definition trim :: "string \<Rightarrow> string" where
  "trim s = rev (dropWhile isWhiteSpace (rev (dropWhile isWhiteSpace s)))"

text \<open>
  \<^verbatim>\<open>String.prototype.toLowerCase\<close> on code units below 256: \<^verbatim>\<open>A\<close>..\<^verbatim>\<open>Z\<close> and the
  Latin-1 capitals (192..222 except the multiplication sign 215) move up by 32; every
  other code unit is unchanged.
\<close>

definition lowerChar :: "char \<Rightarrow> char" where
  "lowerChar c =
     (let n = (of_char c :: nat)
      in if (65 \<le> n \<and> n \<le> 90) \<or> (192 \<le> n \<and> n \<le> 222 \<and> n \<noteq> 215)
         then char_of (n + 32) else c)"

definition toLowerCase :: "string \<Rightarrow> string" where
  "toLowerCase s = map lowerChar s"

definition startsWith :: "string \<Rightarrow> string \<Rightarrow> bool" where
  "startsWith s p = (take (length p) s = p)"

text \<open>\<^verbatim>\<open>s.slice(n)\<close> for \<open>0 \<le> n\<close>: the string from index \<open>n\<close> on, empty past the end.\<close>

definition slice :: "string \<Rightarrow> nat \<Rightarrow> string" where
  "slice s n = drop n s"

text \<open>The double quote, which the error messages of the source contain.\<close>

definition dq :: string where
  "dq = [CHR 0x22]"

subsection \<open>The regular expressions of the source\<close>

text \<open>\<^verbatim>\<open>/^\d+$/\<close>: a non-empty string of digits.\<close>

definition allDigits :: "string \<Rightarrow> bool" where
  "allDigits s = (s \<noteq> [] \<and> list_all isDigit s)"

text \<open>
  \<^verbatim>\<open>s.match(/^<@!?(\d+)>$/)\<close>: \<^verbatim>\<open><@\<close>, an optional \<^verbatim>\<open>!\<close>, one or more digits
  (the captured group, returned here) and a closing \<^verbatim>\<open>>\<close>.
\<close>

definition mentionMatch :: "string \<Rightarrow> string option" where
  "mentionMatch s =
     (if startsWith s ''<@'' then
        (let r = slice s 2;
             body = (if startsWith r ''!'' then slice r 1 else r)
         in if body \<noteq> [] \<and> last body = CHR ''>'' \<and> allDigits (butlast body)
            then Some (butlast body) else None)
      else None)"

text \<open>\<^verbatim>\<open>s.replace(/^@/, "")\<close> and \<^verbatim>\<open>s.replace(/^user:/, "")\<close>.\<close>

definition stripPrefix :: "string \<Rightarrow> string \<Rightarrow> string" where
  "stripPrefix p s = (if startsWith s p then slice s (length p) else s)"

text \<open>
  \<^verbatim>\<open>s.replace(/^user:/i, "")\<close>. Without the unicode flag a code unit matches a
  pattern letter ignoring case only when their upper-case forms agree, which for the
  letters \<^verbatim>\<open>u\<close>, \<^verbatim>\<open>s\<close>, \<^verbatim>\<open>e\<close>, \<^verbatim>\<open>r\<close> means the ASCII letter in either case.
\<close>

definition stripUserPrefixIgnoreCase :: "string \<Rightarrow> string" where
  "stripUserPrefixIgnoreCase s =
     (if toLowerCase (take 5 s) = ''user:'' then slice s 5 else s)"

subsection \<open>Data model\<close>

datatype MessagingTargetKind = User | Channel

record MessagingTarget =
  t_kind :: MessagingTargetKind
  t_id :: string
  t_raw :: string

record MessagingTargetParseOptions =
  defaultKind :: "MessagingTargetKind option"
  ambiguousMessage :: "string option"

text \<open>
  A thrown exception. \<open>Error m\<close> is \<^verbatim>\<open>throw new Error(m)\<close>; the other two are the
  failures of the imported helpers, whose messages the specification does not fix.
\<close>

datatype error =
    Error string
  | EmptyTargetId
  | KindMismatch string MessagingTargetKind

text \<open>A directory entry: every field may be absent.\<close>

record DirectoryEntry =
  e_kind :: "string option"
  e_id :: "string option"
  e_name :: "string option"
  e_handle :: "string option"

text \<open>
  The argument of the directory search: the caller's parameters, opaque here, with
  \<^verbatim>\<open>query\<close> and \<^verbatim>\<open>limit\<close> set by the resolver.
\<close>

record 'o DirectoryQuery =
  params :: 'o
  query :: string
  limit :: nat

subsection \<open>Imported helpers (../channels/targets.js)\<close>

text \<open>
  Modelled from the spec: \<^verbatim>\<open>buildMessagingTarget\<close> is imported from
  \<^verbatim>\<open>../channels/targets.js\<close>, which is not among the sources. The specification gives
  \<^verbatim>\<open>buildTarget(kind, id, raw) -> MessagingTarget\<close>, which fails if \<^verbatim>\<open>id\<close> is empty, and
  a target \<^verbatim>\<open>{kind, id, raw}\<close>.
\<close>

definition buildMessagingTarget ::
  "MessagingTargetKind \<Rightarrow> string \<Rightarrow> string \<Rightarrow> error + MessagingTarget" where
  "buildMessagingTarget k i r =
     (if i = [] then Inl EmptyTargetId else Inr \<lparr>t_kind = k, t_id = i, t_raw = r\<rparr>)"

text \<open>
  Modelled from the spec: \<^verbatim>\<open>ensureTargetId\<close> is imported from
  \<^verbatim>\<open>../channels/targets.js\<close>, which is not among the sources. The specification gives
  \<^verbatim>\<open>assertId({candidate, pattern, errorMessage}) -> string\<close>, which fails with
  \<^verbatim>\<open>errorMessage\<close> if \<^verbatim>\<open>candidate\<close> does not match \<^verbatim>\<open>pattern\<close>. The pattern is passed
  as the predicate it decides.
\<close>

definition ensureTargetId :: "string \<Rightarrow> (string \<Rightarrow> bool) \<Rightarrow> string \<Rightarrow> error + string" where
  "ensureTargetId candidate pattern errorMessage =
     (if pattern candidate then Inr candidate else Inl (Error errorMessage))"

text \<open>
  Modelled from the spec: \<^verbatim>\<open>requireTargetKind\<close> is imported from
  \<^verbatim>\<open>../channels/targets.js\<close>, which is not among the sources. The specification gives
  \<^verbatim>\<open>requireKind({platform, target, kind}) -> id\<close>, which fails with a platform-labeled
  message if \<^verbatim>\<open>target\<close> is undefined or \<^verbatim>\<open>target.kind !== kind\<close>. The failure carries
  the platform label and the required kind.
\<close>

definition requireTargetKind ::
  "string \<Rightarrow> MessagingTarget option \<Rightarrow> MessagingTargetKind \<Rightarrow> error + string" where
  "requireTargetKind platform target k =
     (case target of
        None \<Rightarrow> Inl (KindMismatch platform k)
      | Some t \<Rightarrow> if t_kind t \<noteq> k then Inl (KindMismatch platform k) else Inr (t_id t))"

text \<open>
  \<^verbatim>\<open>return buildMessagingTarget(...)\<close> from a function of result type
  \<^verbatim>\<open>MessagingTarget | undefined\<close>: a failure of the helper propagates.
\<close>

definition returnTarget :: "error + MessagingTarget \<Rightarrow> error + MessagingTarget option" where
  "returnTarget r = (case r of Inl e \<Rightarrow> Inl e | Inr t \<Rightarrow> Inr (Some t))"

subsection \<open>The syntax parser\<close>

definition mentionErrorMessage :: string where
  "mentionErrorMessage = ''Discord DMs require a user id (use user:<id> or a <@id> mention)''"

definition ambiguousRecipientMessage :: "string \<Rightarrow> string" where
  "ambiguousRecipientMessage trimmed =
     ''Ambiguous Discord recipient '' @ dq @ trimmed @ dq @ ''. Use '' @ dq @ ''user:'' @ trimmed
       @ dq @ '' for DMs or '' @ dq @ ''channel:'' @ trimmed @ dq @ '' for channel messages.''"

definition parseDiscordTarget ::
  "string \<Rightarrow> MessagingTargetParseOptions \<Rightarrow> error + MessagingTarget option" where
  "parseDiscordTarget raw options =
     (let trimmed = trim raw in
      if trimmed = [] then Inr None
      else case mentionMatch trimmed of
        Some digits \<Rightarrow> returnTarget (buildMessagingTarget User digits trimmed)
      | None \<Rightarrow>
          if startsWith trimmed ''user:'' then
            (let i = trim (slice trimmed (length ''user:''))
             in if i \<noteq> [] then returnTarget (buildMessagingTarget User i trimmed) else Inr None)
          else if startsWith trimmed ''channel:'' then
            (let i = trim (slice trimmed (length ''channel:''))
             in if i \<noteq> [] then returnTarget (buildMessagingTarget Channel i trimmed) else Inr None)
          else if startsWith trimmed ''discord:'' then
            (let i = trim (slice trimmed (length ''discord:''))
             in if i \<noteq> [] then returnTarget (buildMessagingTarget User i trimmed) else Inr None)
          else if startsWith trimmed ''@'' then
            (let candidate = trim (slice trimmed 1)
             in case ensureTargetId candidate allDigits mentionErrorMessage of
                  Inl e \<Rightarrow> Inl e
                | Inr i \<Rightarrow> returnTarget (buildMessagingTarget User i trimmed))
          else if allDigits trimmed then
            (case defaultKind options of
               Some k \<Rightarrow> returnTarget (buildMessagingTarget k trimmed trimmed)
             | None \<Rightarrow>
                 Inl (Error (case ambiguousMessage options of
                               Some m \<Rightarrow> m
                             | None \<Rightarrow> ambiguousRecipientMessage trimmed)))
          else returnTarget (buildMessagingTarget Channel trimmed trimmed))"

definition resolveDiscordChannelId :: "string \<Rightarrow> error + string" where
  "resolveDiscordChannelId raw =
     (case parseDiscordTarget raw \<lparr>defaultKind = Some Channel, ambiguousMessage = None\<rparr> of
        Inl e \<Rightarrow> Inl e
      | Inr target \<Rightarrow> requireTargetKind ''Discord'' target Channel)"

subsection \<open>The directory-assisted resolver\<close>

definition safeParseDiscordTarget ::
  "string \<Rightarrow> MessagingTargetParseOptions \<Rightarrow> MessagingTarget option" where
  "safeParseDiscordTarget input options =
     (case parseDiscordTarget input options of Inl e \<Rightarrow> None | Inr t \<Rightarrow> t)"

definition isExplicitUserLookup :: "string \<Rightarrow> MessagingTargetParseOptions \<Rightarrow> bool" where
  "isExplicitUserLookup input options =
     (if mentionMatch input \<noteq> None then True
      else if startsWith input ''user:'' \<or> startsWith input ''discord:'' then True
      else if startsWith input ''@'' then True
      else if allDigits input then defaultKind options = Some User
      else False)"

text \<open>
  \<^verbatim>\<open>/^(user:|channel:|discord:|@|<@!?)|[\d]+$/\<close>: the second alternative is not
  anchored at the start, so it matches every string that ends with a digit.
\<close>

definition isLikelyUsername :: "string \<Rightarrow> bool" where
  "isLikelyUsername input =
     (if startsWith input ''user:'' \<or> startsWith input ''channel:''
           \<or> startsWith input ''discord:'' \<or> startsWith input ''@''
           \<or> startsWith input ''<@''
           \<or> (input \<noteq> [] \<and> isDigit (last input))
      then False else True)"

definition isUserEntry :: "DirectoryEntry \<Rightarrow> bool" where
  "isUserEntry entry =
     (e_kind entry = Some ''user'' \<and> (case e_id entry of None \<Rightarrow> False | Some i \<Rightarrow> i \<noteq> []))"

definition isExactMatch :: "string \<Rightarrow> DirectoryEntry \<Rightarrow> bool" where
  "isExactMatch normalizedQuery entry =
     (let name = map_option (\<lambda>s. toLowerCase (trim s)) (e_name entry);
          handle = map_option (\<lambda>s. stripPrefix ''@'' (toLowerCase (trim s))) (e_handle entry);
          i = map_option (\<lambda>s. stripPrefix ''user:'' (toLowerCase (trim s))) (e_id entry)
      in name = Some normalizedQuery \<or> handle = Some normalizedQuery \<or> i = Some normalizedQuery)"

text \<open>Lines 178 to 180: the id returned for the selected entry.\<close>

definition resolvedId :: "DirectoryEntry \<Rightarrow> string option" where
  "resolvedId selected =
     (case e_id selected of
        None \<Rightarrow> None
      | Some i \<Rightarrow>
          if i = [] then None
          else (let r = trim (stripUserPrefixIgnoreCase i) in if r = [] then None else Some r))"

definition selectDiscordUserMatch :: "string \<Rightarrow> DirectoryEntry list \<Rightarrow> string option" where
  "selectDiscordUserMatch q entries =
     (let users = filter isUserEntry entries in
      if length users = 0 then None
      else
        (let normalizedQuery = toLowerCase (trim q);
             exactMatches = filter (isExactMatch normalizedQuery) users;
             selected =
               (if length exactMatches = 1 then Some (exactMatches ! 0)
                else if length users = 1 then Some (users ! 0)
                else None)
         in case selected of None \<Rightarrow> None | Some e \<Rightarrow> resolvedId e))"

definition noMatchMessage :: "string \<Rightarrow> string" where
  "noMatchMessage trimmed =
     ''Discord recipient '' @ dq @ trimmed @ dq @ '' did not match a user. Use '' @ dq
       @ ''user:<id>'' @ dq @ '' or '' @ dq @ ''<@id>'' @ dq @ '' for DMs, or '' @ dq
       @ ''channel:<id>'' @ dq @ '' for channel messages.''"

definition multipleMatchMessage :: "string \<Rightarrow> string" where
  "multipleMatchMessage trimmed =
     ''Multiple Discord users matched '' @ dq @ trimmed @ dq @ ''. Use '' @ dq @ ''user:<id>''
       @ dq @ '' or '' @ dq @ ''<@id>'' @ dq @ '' to disambiguate.''"

text \<open>
  The resolver awaits \<^verbatim>\<open>listDiscordDirectoryPeersLive\<close> at most once. The directory is a
  parameter \<open>dir\<close>, which may reject (\<open>Inl\<close>); the result is paired with the list of the
  directory queries that were issued, so that "the directory is not consulted" is the
  statement that this list is empty.
\<close>

definition resolveDiscordTarget ::
  "('o DirectoryQuery \<Rightarrow> error + DirectoryEntry list) \<Rightarrow> string \<Rightarrow> 'o
     \<Rightarrow> MessagingTargetParseOptions
     \<Rightarrow> (error + MessagingTarget option) \<times> 'o DirectoryQuery list" where
  "resolveDiscordTarget dir raw options parseOptions =
     (let trimmed = trim raw in
      if trimmed = [] then (Inr None, [])
      else
        (let likelyUsername = isLikelyUsername trimmed;
             shouldLookup = (isExplicitUserLookup trimmed parseOptions \<or> likelyUsername);
             directParse = safeParseDiscordTarget trimmed parseOptions
         in if (case directParse of None \<Rightarrow> False
                | Some t \<Rightarrow> t_kind t \<noteq> Channel \<and> \<not> likelyUsername)
            then (Inr directParse, [])
            else if \<not> shouldLookup then
              ((case directParse of
                  Some t \<Rightarrow> Inr (Some t)
                | None \<Rightarrow> parseDiscordTarget trimmed parseOptions), [])
            else
              (let q = \<lparr>params = options, query = trimmed, limit = 5\<rparr>
               in case dir q of
                    Inl e \<Rightarrow> (Inl e, [q])
                  | Inr directoryEntries \<Rightarrow>
                      (case selectDiscordUserMatch trimmed directoryEntries of
                         None \<Rightarrow>
                           if length directoryEntries = 0
                           then (Inl (Error (noMatchMessage trimmed)), [q])
                           else (Inl (Error (multipleMatchMessage trimmed)), [q])
                       | Some selected \<Rightarrow>
                           (returnTarget (buildMessagingTarget User selected trimmed), [q])))))"

subsection \<open>Predicates used to state the properties\<close>

text \<open>
  The structured markers: the anchored alternative
  \<^verbatim>\<open>^(user:|channel:|discord:|@|<@!?)\<close> of the regular expression of
  \<^verbatim>\<open>isLikelyUsername\<close>.
\<close>

definition hasStructuredMarker :: "string \<Rightarrow> bool" where
  "hasStructuredMarker s =
     (startsWith s ''user:'' \<or> startsWith s ''channel:'' \<or> startsWith s ''discord:''
      \<or> startsWith s ''@'' \<or> startsWith s ''<@'')"

text \<open>
  The selection condition in the words of the specification, read over the entries passed
  in: exactly one entry is an exact normalized match, or the list of entries has exactly
  one member. It is compared with \<open>selectDiscordUserMatch\<close> below.
\<close>

definition claimedSelection :: "string \<Rightarrow> DirectoryEntry list \<Rightarrow> bool" where
  "claimedSelection q entries =
     (length (filter (isExactMatch (toLowerCase (trim q))) entries) = 1 \<or> length entries = 1)"

section \<open>Properties\<close>

subsection \<open>Trimming and the shape of trimmed strings\<close>

lemma isDigit_not_ws: "isDigit c \<Longrightarrow> \<not> isWhiteSpace c"
  by (auto simp: isDigit_def isWhiteSpace_def)

lemma trim_ws_free:
  assumes "s \<noteq> []" "\<not> isWhiteSpace (hd s)" "\<not> isWhiteSpace (last s)"
  shows "trim s = s"
proof -
  from assms have a: "dropWhile isWhiteSpace s = s"
    by (cases s) auto
  from assms have "rev s \<noteq> []" "\<not> isWhiteSpace (hd (rev s))"
    by (auto simp: hd_rev)
  then have "dropWhile isWhiteSpace (rev s) = rev s"
    by (cases "rev s") auto
  with a show ?thesis by (simp add: trim_def)
qed

lemma dropWhile_hd: "dropWhile P xs \<noteq> [] \<Longrightarrow> \<not> P (hd (dropWhile P xs))"
  by (metis hd_dropWhile)

lemma trim_hd_last:
  assumes "trim s \<noteq> []"
  shows "\<not> isWhiteSpace (hd (trim s)) \<and> \<not> isWhiteSpace (last (trim s))"
proof -
  let ?a = "dropWhile isWhiteSpace s"
  let ?b = "dropWhile isWhiteSpace (rev ?a)"
  from assms have b: "?b \<noteq> []" by (simp add: trim_def)
  then have a: "?a \<noteq> []" by (metis dropWhile.simps(1) rev.simps(1))
  from b have "\<not> isWhiteSpace (hd ?b)" by (rule dropWhile_hd)
  then have l: "\<not> isWhiteSpace (last (trim s))"
    using b by (simp add: trim_def last_rev)
  have na: "\<not> isWhiteSpace (hd ?a)" using a by (rule dropWhile_hd)
  obtain ys where ys: "rev ?a = takeWhile isWhiteSpace (rev ?a) @ ?b" by simp
  have "?a = rev ?b @ rev (takeWhile isWhiteSpace (rev ?a))"
    by (metis rev_append rev_rev_ident takeWhile_dropWhile_id)
  then have "hd ?a = hd (rev ?b)" using b by (metis hd_append2 rev_is_Nil_conv)
  with na have "\<not> isWhiteSpace (hd (trim s))" by (simp add: trim_def)
  with l show ?thesis by simp
qed

lemma trim_idem: "trim (trim s) = trim s"
proof (cases "trim s = []")
  case True
  moreover have "trim [] = []" by (simp add: trim_def)
  ultimately show ?thesis by simp
next
  case False
  with trim_hd_last [OF False] show ?thesis by (simp add: trim_ws_free)
qed

lemma trim_surround:
  assumes "list_all isWhiteSpace ws1" "list_all isWhiteSpace ws2"
    and "p \<noteq> []" "\<not> isWhiteSpace (hd p)" "\<not> isWhiteSpace (last p)"
  shows "trim (ws1 @ p @ ws2) = p"
proof -
  from assms have a: "dropWhile isWhiteSpace (ws1 @ p @ ws2) = p @ ws2"
    by (cases p) (auto simp: list_all_iff dropWhile_append2)
  from assms have "rev p \<noteq> []" "\<not> isWhiteSpace (hd (rev p))"
    by (auto simp: hd_rev)
  then have "dropWhile isWhiteSpace (rev p) = rev p"
    by (cases "rev p") auto
  moreover have "dropWhile isWhiteSpace (rev ws2 @ rev p) = dropWhile isWhiteSpace (rev p)"
    using assms(2) by (intro dropWhile_append2) (simp add: list_all_iff)
  ultimately have "dropWhile isWhiteSpace (rev ws2 @ rev p) = rev p" by simp
  with a show ?thesis by (simp add: trim_def)
qed

lemma startsWith_Cons: "startsWith s (c # p) \<Longrightarrow> s \<noteq> [] \<and> hd s = c"
  by (cases s) (auto simp: startsWith_def)

lemma mentionMatch_hd: "mentionMatch s = Some d \<Longrightarrow> s \<noteq> [] \<and> hd s = CHR ''<''"
  by (auto simp: mentionMatch_def dest: startsWith_Cons split: if_splits)

lemma allDigits_hd_last: "allDigits s \<Longrightarrow> isDigit (hd s) \<and> isDigit (last s)"
  by (cases s) (auto simp: allDigits_def list_all_iff)

lemma allDigits_trim: "allDigits s \<Longrightarrow> trim s = s"
  using allDigits_hd_last [of s] by (auto simp: allDigits_def intro!: trim_ws_free isDigit_not_ws)

lemma digit_first_no_marker:
  assumes "s \<noteq> []" "isDigit (hd s)"
  shows "mentionMatch s = None" "\<not> startsWith s ''user:''" "\<not> startsWith s ''channel:''"
    "\<not> startsWith s ''discord:''" "\<not> startsWith s ''@''" "\<not> startsWith s ''<@''"
proof -
  show "mentionMatch s = None"
  proof (cases "mentionMatch s")
    case (Some d)
    from mentionMatch_hd [OF this] assms show ?thesis by (simp add: isDigit_def)
  qed simp
  show "\<not> startsWith s ''user:''" using assms by (auto dest!: startsWith_Cons simp: isDigit_def)
  show "\<not> startsWith s ''channel:''" using assms by (auto dest!: startsWith_Cons simp: isDigit_def)
  show "\<not> startsWith s ''discord:''" using assms by (auto dest!: startsWith_Cons simp: isDigit_def)
  show "\<not> startsWith s ''@''" using assms by (auto dest!: startsWith_Cons simp: isDigit_def)
  show "\<not> startsWith s ''<@''" using assms by (auto dest!: startsWith_Cons simp: isDigit_def)
qed

lemma parse_allDigits:
  assumes "allDigits s"
  shows "parseDiscordTarget s po =
    (case defaultKind po of
       Some k \<Rightarrow> Inr (Some \<lparr>t_kind = k, t_id = s, t_raw = s\<rparr>)
     | None \<Rightarrow> Inl (Error (case ambiguousMessage po of Some m \<Rightarrow> m
                            | None \<Rightarrow> ambiguousRecipientMessage s)))"
proof -
  from assms have ne: "s \<noteq> []" by (simp add: allDigits_def)
  from allDigits_hd_last [OF assms] have d: "isDigit (hd s)" by simp
  show ?thesis
    using assms ne digit_first_no_marker [OF ne d]
    by (simp add: parseDiscordTarget_def allDigits_trim returnTarget_def buildMessagingTarget_def
        split: option.splits)
qed

subsection \<open>Bare numeric input\<close>



subsection \<open>The at sign, and prefixes with nothing after them\<close>

lemma parse_trim: "parseDiscordTarget (trim raw) po = parseDiscordTarget raw po"
  by (simp add: parseDiscordTarget_def trim_idem)

lemma parse_raw_field:
  "parseDiscordTarget raw po = Inr (Some t) \<Longrightarrow> t_raw t = trim raw"
  by (auto simp: parseDiscordTarget_def Let_def returnTarget_def buildMessagingTarget_def
      ensureTargetId_def split: if_splits option.splits sum.splits)

lemma parse_not_digits_options:
  "\<not> allDigits (trim raw) \<Longrightarrow> parseDiscordTarget raw po = parseDiscordTarget raw po'"
  by (simp add: parseDiscordTarget_def Let_def)

lemma at_first_no_marker:
  assumes "startsWith s ''@''"
  shows "mentionMatch s = None" "\<not> startsWith s ''user:''" "\<not> startsWith s ''channel:''"
    "\<not> startsWith s ''discord:''"
proof -
  from startsWith_Cons [OF assms] have h: "s \<noteq> []" "hd s = CHR ''@''" by simp_all
  show "mentionMatch s = None"
  proof (cases "mentionMatch s")
    case (Some d)
    from mentionMatch_hd [OF this] h show ?thesis by simp
  qed simp
  show "\<not> startsWith s ''user:''" using h by (auto dest!: startsWith_Cons)
  show "\<not> startsWith s ''channel:''" using h by (auto dest!: startsWith_Cons)
  show "\<not> startsWith s ''discord:''" using h by (auto dest!: startsWith_Cons)
qed

text \<open>
  Claim C7 (amended). For every input whose trimmed form starts with
  \<^verbatim>\<open>@\<close>: the remainder after the \<^verbatim>\<open>@\<close> is
  trimmed again; if the result is a non-empty string of digits, the parser returns the user
  target with that digit string as id, and otherwise it throws the error that names
  \<^verbatim>\<open>user:<id>\<close> and the \<^verbatim>\<open><@id>\<close> mention.
\<close>

theorem parse_at_sigil:
  "startsWith (trim raw) ''@'' \<Longrightarrow>
     parseDiscordTarget raw po =
       (if allDigits (trim (slice (trim raw) 1))
        then Inr (Some \<lparr>t_kind = User, t_id = trim (slice (trim raw) 1), t_raw = trim raw\<rparr>)
        else Inl (Error ''Discord DMs require a user id (use user:<id> or a <@id> mention)''))"
proof -
  assume a: "startsWith (trim raw) ''@''"
  then have ne: "trim raw \<noteq> []" by (auto dest: startsWith_Cons)
  show ?thesis
    using a ne at_first_no_marker [OF a]
    by (simp add: parseDiscordTarget_def Let_def ensureTargetId_def returnTarget_def
        buildMessagingTarget_def mentionErrorMessage_def allDigits_def)
qed

text \<open>
  Claim C7 at \<^verbatim>\<open>@123\<close>, which yields the user target 123, and at
  \<^verbatim>\<open>@abc\<close>, which throws.
\<close>

theorem parse_at_sigil_witness:
  "startsWith (trim ''@123'') ''@''
   \<and> parseDiscordTarget ''@123'' \<lparr>defaultKind = None, ambiguousMessage = None\<rparr>
       = Inr (Some \<lparr>t_kind = User, t_id = ''123'', t_raw = ''@123''\<rparr>)
   \<and> startsWith (trim ''@abc'') ''@''
   \<and> parseDiscordTarget ''@abc'' \<lparr>defaultKind = None, ambiguousMessage = None\<rparr>
       = Inl (Error ''Discord DMs require a user id (use user:<id> or a <@id> mention)'')"
  using parse_at_sigil [of "''@123''" "\<lparr>defaultKind = None, ambiguousMessage = None\<rparr>"]
    parse_at_sigil [of "''@abc''" "\<lparr>defaultKind = None, ambiguousMessage = None\<rparr>"]
  by (simp add: trim_def isWhiteSpace_def slice_def allDigits_def isDigit_def startsWith_def)

text \<open>
  Claim C7 as stated fails at \<^verbatim>\<open>@ 123\<close>: the remainder after the
  \<^verbatim>\<open>@\<close> is \<^verbatim>\<open>" 123"\<close>, which is not a string
  of only digits, yet the parser does not throw, because line 43 trims the remainder before
  it is checked.
\<close>

theorem parse_at_sigil_untrimmed_counterexample:
  "startsWith (trim ''@ 123'') ''@''
   \<and> \<not> allDigits (slice (trim ''@ 123'') 1)
   \<and> parseDiscordTarget ''@ 123'' \<lparr>defaultKind = None, ambiguousMessage = None\<rparr>
       = Inr (Some \<lparr>t_kind = User, t_id = ''123'', t_raw = ''@ 123''\<rparr>)"
  by (simp add: parseDiscordTarget_def trim_def isWhiteSpace_def mentionMatch_def startsWith_def
      slice_def allDigits_def isDigit_def returnTarget_def buildMessagingTarget_def Let_def
      ensureTargetId_def)

text \<open>
  Claim C10. For each of the prefixes \<^verbatim>\<open>user:\<close>,
  \<^verbatim>\<open>channel:\<close> and \<^verbatim>\<open>discord:\<close>, an input
  that is the prefix followed by whitespace only, or by nothing (and preceded by whitespace
  only, or by nothing), parses to \<^verbatim>\<open>undefined\<close>: no error and no
  target.
\<close>

theorem parse_prefix_only_undefined:
  "list_all isWhiteSpace ws1 \<Longrightarrow> list_all isWhiteSpace ws2 \<Longrightarrow>
     parseDiscordTarget (ws1 @ ''user:'' @ ws2) po = Inr None
   \<and> parseDiscordTarget (ws1 @ ''channel:'' @ ws2) po = Inr None
   \<and> parseDiscordTarget (ws1 @ ''discord:'' @ ws2) po = Inr None"
proof -
  assume w: "list_all isWhiteSpace ws1" "list_all isWhiteSpace ws2"
  have e: "trim [] = []" by (simp add: trim_def)
  have u: "trim (ws1 @ ''user:'' @ ws2) = ''user:''"
    by (rule trim_surround [OF w]) (simp_all add: isWhiteSpace_def)
  have c: "trim (ws1 @ ''channel:'' @ ws2) = ''channel:''"
    by (rule trim_surround [OF w]) (simp_all add: isWhiteSpace_def)
  have d: "trim (ws1 @ ''discord:'' @ ws2) = ''discord:''"
    by (rule trim_surround [OF w]) (simp_all add: isWhiteSpace_def)
  have "parseDiscordTarget (ws1 @ ''user:'' @ ws2) po = Inr None"
    unfolding parseDiscordTarget_def Let_def u
    by (simp add: mentionMatch_def startsWith_def slice_def e)
  moreover have "parseDiscordTarget (ws1 @ ''channel:'' @ ws2) po = Inr None"
    unfolding parseDiscordTarget_def Let_def c
    by (simp add: mentionMatch_def startsWith_def slice_def e)
  moreover have "parseDiscordTarget (ws1 @ ''discord:'' @ ws2) po = Inr None"
    unfolding parseDiscordTarget_def Let_def d
    by (simp add: mentionMatch_def startsWith_def slice_def e)
  ultimately show ?thesis by simp
qed

text \<open>
  Claim C10 at the three prefixes followed by two spaces.
\<close>

theorem parse_prefix_only_witness:
  "list_all isWhiteSpace [] \<and> list_all isWhiteSpace ''  ''
   \<and> parseDiscordTarget ''user:  '' \<lparr>defaultKind = None, ambiguousMessage = None\<rparr> = Inr None
   \<and> parseDiscordTarget ''channel:  '' \<lparr>defaultKind = None, ambiguousMessage = None\<rparr> = Inr None
   \<and> parseDiscordTarget ''discord:  '' \<lparr>defaultKind = None, ambiguousMessage = None\<rparr> = Inr None"
proof -
  have h1: "list_all isWhiteSpace []" and h2: "list_all isWhiteSpace ''  ''"
    by (simp_all add: isWhiteSpace_def)
  show ?thesis
    using h1 h2
      parse_prefix_only_undefined [OF h1 h2, of "\<lparr>defaultKind = None, ambiguousMessage = None\<rparr>"]
    by simp
qed

subsection \<open>Mentions and prefixes in general\<close>

lemma mentionMatch_wrapper:
  assumes "allDigits d"
  shows "mentionMatch (''<@'' @ d @ ''>'') = Some d" "mentionMatch (''<@!'' @ d @ ''>'') = Some d"
proof -
  from assms have ne: "d \<noteq> []" by (simp add: allDigits_def)
  from allDigits_hd_last [OF assms] have "hd d \<noteq> CHR ''!''" by (auto simp: isDigit_def)
  with ne have nb: "\<not> startsWith (d @ ''>'') ''!''"
    by (cases d) (auto simp: startsWith_def)
  show "mentionMatch (''<@'' @ d @ ''>'') = Some d"
    using assms nb by (simp add: mentionMatch_def startsWith_def slice_def butlast_append)
  show "mentionMatch (''<@!'' @ d @ ''>'') = Some d"
    using assms by (simp add: mentionMatch_def startsWith_def slice_def butlast_append)
qed

lemma trim_wrapper:
  "trim (''<@'' @ d @ ''>'') = ''<@'' @ d @ ''>''" "trim (''<@!'' @ d @ ''>'') = ''<@!'' @ d @ ''>''"
  by (rule trim_ws_free; simp add: isWhiteSpace_def)+

lemma parse_mention_wrapper:
  assumes "allDigits d"
  shows "parseDiscordTarget (''<@'' @ d @ ''>'') po
      = Inr (Some \<lparr>t_kind = User, t_id = d, t_raw = ''<@'' @ d @ ''>''\<rparr>)"
    and "parseDiscordTarget (''<@!'' @ d @ ''>'') po
      = Inr (Some \<lparr>t_kind = User, t_id = d, t_raw = ''<@!'' @ d @ ''>''\<rparr>)"
proof -
  from assms have ne: "d \<noteq> []" by (simp add: allDigits_def)
  show "parseDiscordTarget (''<@'' @ d @ ''>'') po
      = Inr (Some \<lparr>t_kind = User, t_id = d, t_raw = ''<@'' @ d @ ''>''\<rparr>)"
    unfolding parseDiscordTarget_def Let_def trim_wrapper mentionMatch_wrapper(1) [OF assms]
    using ne by (simp add: returnTarget_def buildMessagingTarget_def)
  show "parseDiscordTarget (''<@!'' @ d @ ''>'') po
      = Inr (Some \<lparr>t_kind = User, t_id = d, t_raw = ''<@!'' @ d @ ''>''\<rparr>)"
    unfolding parseDiscordTarget_def Let_def trim_wrapper mentionMatch_wrapper(2) [OF assms]
    using ne by (simp add: returnTarget_def buildMessagingTarget_def)
qed

lemma prefix_no_mention:
  assumes "s \<noteq> []" "hd s \<noteq> CHR ''<''"
  shows "mentionMatch s = None"
proof (cases "mentionMatch s")
  case (Some d)
  from mentionMatch_hd [OF this] assms show ?thesis by simp
qed simp

lemma parse_user_prefix:
  assumes "startsWith (trim raw) ''user:''"
  shows "parseDiscordTarget raw po =
    (if trim (slice (trim raw) (length ''user:'')) = [] then Inr None
     else Inr (Some \<lparr>t_kind = User, t_id = trim (slice (trim raw) (length ''user:'')), t_raw = trim raw\<rparr>))"
proof -
  from startsWith_Cons [OF assms] have h: "trim raw \<noteq> []" "hd (trim raw) = CHR ''u''"
    by simp_all
  then have "mentionMatch (trim raw) = None" by (intro prefix_no_mention) simp_all
  with h assms show ?thesis
    by (simp add: parseDiscordTarget_def Let_def returnTarget_def buildMessagingTarget_def)
qed

lemma parse_channel_prefix:
  assumes "startsWith (trim raw) ''channel:''"
  shows "parseDiscordTarget raw po =
    (if trim (slice (trim raw) (length ''channel:'')) = [] then Inr None
     else Inr (Some \<lparr>t_kind = Channel, t_id = trim (slice (trim raw) (length ''channel:'')), t_raw = trim raw\<rparr>))"
proof -
  from startsWith_Cons [OF assms] have h: "trim raw \<noteq> []" "hd (trim raw) = CHR ''c''"
    by simp_all
  then have m: "mentionMatch (trim raw) = None" by (intro prefix_no_mention) simp_all
  from h have u: "\<not> startsWith (trim raw) ''user:''" by (auto dest!: startsWith_Cons)
  from h m u assms show ?thesis
    by (simp add: parseDiscordTarget_def Let_def returnTarget_def buildMessagingTarget_def)
qed

lemma parse_discord_prefix:
  assumes "startsWith (trim raw) ''discord:''"
  shows "parseDiscordTarget raw po =
    (if trim (slice (trim raw) (length ''discord:'')) = [] then Inr None
     else Inr (Some \<lparr>t_kind = User, t_id = trim (slice (trim raw) (length ''discord:'')), t_raw = trim raw\<rparr>))"
proof -
  from startsWith_Cons [OF assms] have h: "trim raw \<noteq> []" "hd (trim raw) = CHR ''d''"
    by simp_all
  then have m: "mentionMatch (trim raw) = None" by (intro prefix_no_mention) simp_all
  from h have u: "\<not> startsWith (trim raw) ''user:''" "\<not> startsWith (trim raw) ''channel:''"
    by (auto dest!: startsWith_Cons)
  from h m u assms show ?thesis
    by (simp add: parseDiscordTarget_def Let_def returnTarget_def buildMessagingTarget_def)
qed

text \<open>
  Claim C6. The mention wrapper and the prefixes classify with the marker stripped, whatever
  the options. For every non-empty string \<open>d\<close> of digits, \<^verbatim>\<open><@\<close>\<open>d\<close>\<^verbatim>\<open>>\<close>
  and \<^verbatim>\<open><@!\<close>\<open>d\<close>\<^verbatim>\<open>>\<close> parse to the user target with id \<open>d\<close>.
  For every input whose trimmed form starts with \<^verbatim>\<open>user:\<close> or
  \<^verbatim>\<open>discord:\<close>, the result is the user target whose id is the rest after the
  prefix, trimmed, and for \<^verbatim>\<open>channel:\<close> it is the channel target with that id;
  when nothing is left after the prefix the result is \<^verbatim>\<open>undefined\<close>. In particular
  \<^verbatim>\<open><@123>\<close>, \<^verbatim>\<open><@!123>\<close>, \<^verbatim>\<open>user:123\<close> and
  \<^verbatim>\<open>discord:123\<close> parse to the user target with id \<^verbatim>\<open>123\<close>, and
  \<^verbatim>\<open>channel:abc\<close> parses to the channel target with id \<^verbatim>\<open>abc\<close>.
\<close>

theorem parse_marker_forms:
  "(allDigits d \<longrightarrow>
      parseDiscordTarget (''<@'' @ d @ ''>'') po
        = Inr (Some \<lparr>t_kind = User, t_id = d, t_raw = ''<@'' @ d @ ''>''\<rparr>)
    \<and> parseDiscordTarget (''<@!'' @ d @ ''>'') po
        = Inr (Some \<lparr>t_kind = User, t_id = d, t_raw = ''<@!'' @ d @ ''>''\<rparr>))
   \<and> (startsWith (trim raw) ''user:'' \<longrightarrow>
        parseDiscordTarget raw po =
          (if trim (slice (trim raw) (length ''user:'')) = [] then Inr None
           else Inr (Some \<lparr>t_kind = User, t_id = trim (slice (trim raw) (length ''user:'')),
                           t_raw = trim raw\<rparr>)))
   \<and> (startsWith (trim raw) ''discord:'' \<longrightarrow>
        parseDiscordTarget raw po =
          (if trim (slice (trim raw) (length ''discord:'')) = [] then Inr None
           else Inr (Some \<lparr>t_kind = User, t_id = trim (slice (trim raw) (length ''discord:'')),
                           t_raw = trim raw\<rparr>)))
   \<and> (startsWith (trim raw) ''channel:'' \<longrightarrow>
        parseDiscordTarget raw po =
          (if trim (slice (trim raw) (length ''channel:'')) = [] then Inr None
           else Inr (Some \<lparr>t_kind = Channel, t_id = trim (slice (trim raw) (length ''channel:'')),
                           t_raw = trim raw\<rparr>)))
   \<and> parseDiscordTarget ''<@123>'' po = Inr (Some \<lparr>t_kind = User, t_id = ''123'', t_raw = ''<@123>''\<rparr>)
   \<and> parseDiscordTarget ''<@!123>'' po = Inr (Some \<lparr>t_kind = User, t_id = ''123'', t_raw = ''<@!123>''\<rparr>)
   \<and> parseDiscordTarget ''user:123'' po = Inr (Some \<lparr>t_kind = User, t_id = ''123'', t_raw = ''user:123''\<rparr>)
   \<and> parseDiscordTarget ''discord:123'' po = Inr (Some \<lparr>t_kind = User, t_id = ''123'', t_raw = ''discord:123''\<rparr>)
   \<and> parseDiscordTarget ''channel:abc'' po = Inr (Some \<lparr>t_kind = Channel, t_id = ''abc'', t_raw = ''channel:abc''\<rparr>)"
proof -
  have lit: "parseDiscordTarget ''<@123>'' po = Inr (Some \<lparr>t_kind = User, t_id = ''123'', t_raw = ''<@123>''\<rparr>)
   \<and> parseDiscordTarget ''<@!123>'' po = Inr (Some \<lparr>t_kind = User, t_id = ''123'', t_raw = ''<@!123>''\<rparr>)
   \<and> parseDiscordTarget ''user:123'' po = Inr (Some \<lparr>t_kind = User, t_id = ''123'', t_raw = ''user:123''\<rparr>)
   \<and> parseDiscordTarget ''discord:123'' po = Inr (Some \<lparr>t_kind = User, t_id = ''123'', t_raw = ''discord:123''\<rparr>)
   \<and> parseDiscordTarget ''channel:abc'' po = Inr (Some \<lparr>t_kind = Channel, t_id = ''abc'', t_raw = ''channel:abc''\<rparr>)"
    by (simp add: parseDiscordTarget_def trim_def isWhiteSpace_def mentionMatch_def startsWith_def
        slice_def allDigits_def isDigit_def returnTarget_def buildMessagingTarget_def Let_def)
  show ?thesis
    using lit parse_mention_wrapper [of d po] parse_user_prefix [of raw po]
      parse_discord_prefix [of raw po] parse_channel_prefix [of raw po]
    by blast
qed

text \<open>
  Claim C6 at other ids than the five of the statement: the mentions of 987654, and the
  three prefixes followed by an id with spaces around it.
\<close>

theorem parse_marker_forms_witness:
  "allDigits ''987654''
   \<and> parseDiscordTarget ''<@987654>'' \<lparr>defaultKind = None, ambiguousMessage = None\<rparr>
       = Inr (Some \<lparr>t_kind = User, t_id = ''987654'', t_raw = ''<@987654>''\<rparr>)
   \<and> parseDiscordTarget ''<@!987654>'' \<lparr>defaultKind = None, ambiguousMessage = None\<rparr>
       = Inr (Some \<lparr>t_kind = User, t_id = ''987654'', t_raw = ''<@!987654>''\<rparr>)
   \<and> startsWith (trim '' user: Ann 7 '') ''user:''
   \<and> parseDiscordTarget '' user: Ann 7 '' \<lparr>defaultKind = None, ambiguousMessage = None\<rparr>
       = Inr (Some \<lparr>t_kind = User, t_id = ''Ann 7'', t_raw = ''user: Ann 7''\<rparr>)
   \<and> startsWith (trim ''discord:42 '') ''discord:''
   \<and> parseDiscordTarget ''discord:42 '' \<lparr>defaultKind = None, ambiguousMessage = None\<rparr>
       = Inr (Some \<lparr>t_kind = User, t_id = ''42'', t_raw = ''discord:42''\<rparr>)
   \<and> startsWith (trim ''channel: general'') ''channel:''
   \<and> parseDiscordTarget ''channel: general'' \<lparr>defaultKind = None, ambiguousMessage = None\<rparr>
       = Inr (Some \<lparr>t_kind = Channel, t_id = ''general'', t_raw = ''channel: general''\<rparr>)"
proof -
  let ?po = "\<lparr>defaultKind = None, ambiguousMessage = None\<rparr>"
  have d: "allDigits ''987654''" by (simp add: allDigits_def isDigit_def)
  show ?thesis
    using d parse_marker_forms [of "''987654''" ?po "'' user: Ann 7 ''"]
      parse_marker_forms [of "''987654''" ?po "''discord:42 ''"]
      parse_marker_forms [of "''987654''" ?po "''channel: general''"]
    by (simp add: trim_def isWhiteSpace_def startsWith_def slice_def)
qed

subsection \<open>The channel id of a string\<close>

lemma parse_digits_never_user:
  assumes "allDigits (trim raw)" "defaultKind po \<noteq> Some User"
    and "parseDiscordTarget raw po = Inr (Some t)"
  shows "t_kind t = Channel"
proof -
  have "parseDiscordTarget (trim raw) po = Inr (Some t)"
    using assms(3) by (simp add: parse_trim)
  then show ?thesis
    using assms(2) by (cases "defaultKind po"; cases "the (defaultKind po)")
      (auto simp: parse_allDigits [OF assms(1)])
qed

lemma parse_user_channel_default:
  assumes "parseDiscordTarget raw po = Inr (Some t)" "t_kind t = User"
    "defaultKind po \<noteq> Some User"
  shows "parseDiscordTarget raw \<lparr>defaultKind = Some Channel, ambiguousMessage = None\<rparr>
    = Inr (Some t)"
proof (cases "allDigits (trim raw)")
  case True
  from parse_digits_never_user [OF True assms(3) assms(1)] assms(2) show ?thesis by simp
next
  case False
  from parse_not_digits_options [OF False] assms(1) show ?thesis by metis
qed

text \<open>
  Claim C8. \<^verbatim>\<open>resolveDiscordChannelId\<close> is parsing with
  \<^verbatim>\<open>defaultKind = "channel"\<close> followed by the requirement that the
  target is a channel: an error of the parser propagates, an undefined or non-channel
  target is a kind mismatch labelled \<^verbatim>\<open>Discord\<close>, a channel target
  gives its id. On \<^verbatim>\<open>channel:42\<close> it returns
  \<^verbatim>\<open>42\<close>, and on every input that parses to a user target (under
  options whose default kind is not user) it fails with the kind mismatch.
\<close>

theorem resolveChannelId_requires_channel:
  "resolveDiscordChannelId raw =
     (case parseDiscordTarget raw \<lparr>defaultKind = Some Channel, ambiguousMessage = None\<rparr> of
        Inl e \<Rightarrow> Inl e
      | Inr None \<Rightarrow> Inl (KindMismatch ''Discord'' Channel)
      | Inr (Some t) \<Rightarrow>
          if t_kind t = Channel then Inr (t_id t) else Inl (KindMismatch ''Discord'' Channel))
   \<and> resolveDiscordChannelId ''channel:42'' = Inr ''42''
   \<and> (parseDiscordTarget raw po = Inr (Some t) \<and> t_kind t = User \<and> defaultKind po \<noteq> Some User
        \<longrightarrow> resolveDiscordChannelId raw = Inl (KindMismatch ''Discord'' Channel))"
proof -
  have a: "resolveDiscordChannelId raw =
     (case parseDiscordTarget raw \<lparr>defaultKind = Some Channel, ambiguousMessage = None\<rparr> of
        Inl e \<Rightarrow> Inl e
      | Inr None \<Rightarrow> Inl (KindMismatch ''Discord'' Channel)
      | Inr (Some t) \<Rightarrow>
          if t_kind t = Channel then Inr (t_id t) else Inl (KindMismatch ''Discord'' Channel))"
    by (simp add: resolveDiscordChannelId_def requireTargetKind_def split: sum.splits option.splits)
  have b: "resolveDiscordChannelId ''channel:42'' = Inr ''42''"
    by (simp add: resolveDiscordChannelId_def requireTargetKind_def parseDiscordTarget_def
        trim_def isWhiteSpace_def mentionMatch_def startsWith_def slice_def returnTarget_def
        buildMessagingTarget_def Let_def)
  have c: "resolveDiscordChannelId raw = Inl (KindMismatch ''Discord'' Channel)"
    if "parseDiscordTarget raw po = Inr (Some t)" "t_kind t = User" "defaultKind po \<noteq> Some User"
    using parse_user_channel_default [OF that] that(2)
    by (simp add: resolveDiscordChannelId_def requireTargetKind_def)
  from a b c show ?thesis by blast
qed

text \<open>
  Claim C8 at \<^verbatim>\<open>user:5\<close> and \<^verbatim>\<open><@123>\<close>,
  which parse to user targets.
\<close>

theorem resolveChannelId_witness:
  "resolveDiscordChannelId ''channel:42'' = Inr ''42''
   \<and> parseDiscordTarget ''user:5'' \<lparr>defaultKind = None, ambiguousMessage = None\<rparr>
       = Inr (Some \<lparr>t_kind = User, t_id = ''5'', t_raw = ''user:5''\<rparr>)
   \<and> resolveDiscordChannelId ''user:5'' = Inl (KindMismatch ''Discord'' Channel)
   \<and> parseDiscordTarget ''<@123>'' \<lparr>defaultKind = None, ambiguousMessage = None\<rparr>
       = Inr (Some \<lparr>t_kind = User, t_id = ''123'', t_raw = ''<@123>''\<rparr>)
   \<and> resolveDiscordChannelId ''<@123>'' = Inl (KindMismatch ''Discord'' Channel)"
proof -
  let ?po = "\<lparr>defaultKind = None, ambiguousMessage = None\<rparr>"
  have p1: "parseDiscordTarget ''user:5'' ?po
      = Inr (Some \<lparr>t_kind = User, t_id = ''5'', t_raw = ''user:5''\<rparr>)"
    and p2: "parseDiscordTarget ''<@123>'' ?po
      = Inr (Some \<lparr>t_kind = User, t_id = ''123'', t_raw = ''<@123>''\<rparr>)"
    by (simp_all add: parseDiscordTarget_def trim_def isWhiteSpace_def mentionMatch_def
        startsWith_def slice_def allDigits_def isDigit_def returnTarget_def
        buildMessagingTarget_def Let_def)
  show ?thesis
    using p1 p2
      resolveChannelId_requires_channel
        [where raw = "''user:5''" and po = ?po
           and t = "\<lparr>t_kind = User, t_id = ''5'', t_raw = ''user:5''\<rparr>", THEN conjunct2]
      resolveChannelId_requires_channel
        [where raw = "''<@123>''" and po = ?po
           and t = "\<lparr>t_kind = User, t_id = ''123'', t_raw = ''<@123>''\<rparr>", THEN conjunct2]
    by simp
qed

subsection \<open>Explicit forms bypass the directory\<close>

lemma safeParse_trim: "safeParseDiscordTarget (trim raw) po = safeParseDiscordTarget raw po"
  by (simp add: safeParseDiscordTarget_def parse_trim)

lemma safeParse_Some:
  "safeParseDiscordTarget raw po = Some t \<Longrightarrow> parseDiscordTarget raw po = Inr (Some t)"
  by (auto simp: safeParseDiscordTarget_def split: sum.splits)

lemma parse_Some_trim_nonempty:
  "parseDiscordTarget raw po = Inr (Some t) \<Longrightarrow> trim raw \<noteq> []"
  by (auto simp: parseDiscordTarget_def)

text \<open>
  Claim C2. When the direct parse of the input succeeds with a kind other than channel and
  the trimmed input is not flagged as a likely username, the resolver returns the parsed
  target and issues no directory query, whatever the directory is; in particular
  \<^verbatim>\<open>user:9\<close> resolves to the user target 9 with no query.
\<close>

theorem resolve_explicit_bypasses_directory:
  "(safeParseDiscordTarget raw po = Some t \<and> t_kind t \<noteq> Channel \<and> \<not> isLikelyUsername (trim raw)
      \<longrightarrow> resolveDiscordTarget dir raw opts po = (Inr (Some t), []))
   \<and> resolveDiscordTarget dir ''user:9'' opts po
       = (Inr (Some \<lparr>t_kind = User, t_id = ''9'', t_raw = ''user:9''\<rparr>), [])"
proof -
  have a: "resolveDiscordTarget dir raw opts po = (Inr (Some t), [])"
    if h: "safeParseDiscordTarget raw po = Some t" "t_kind t \<noteq> Channel"
      "\<not> isLikelyUsername (trim raw)"
  proof -
    from safeParse_Some [OF h(1)] have "trim raw \<noteq> []" by (rule parse_Some_trim_nonempty)
    then show ?thesis
      using h by (simp add: resolveDiscordTarget_def Let_def safeParse_trim)
  qed
  have b: "resolveDiscordTarget dir ''user:9'' opts po
       = (Inr (Some \<lparr>t_kind = User, t_id = ''9'', t_raw = ''user:9''\<rparr>), [])"
    by (simp add: resolveDiscordTarget_def safeParseDiscordTarget_def isLikelyUsername_def
        parseDiscordTarget_def trim_def isWhiteSpace_def mentionMatch_def
        startsWith_def slice_def returnTarget_def buildMessagingTarget_def Let_def)
  from a b show ?thesis by blast
qed

text \<open>
  Claim C2 at \<^verbatim>\<open><@77>\<close> and \<^verbatim>\<open>user:9\<close>, with
  a directory that rejects every query.
\<close>

theorem resolve_explicit_witness:
  "safeParseDiscordTarget ''<@77>'' \<lparr>defaultKind = None, ambiguousMessage = None\<rparr>
     = Some \<lparr>t_kind = User, t_id = ''77'', t_raw = ''<@77>''\<rparr>
   \<and> \<not> isLikelyUsername (trim ''<@77>'')
   \<and> resolveDiscordTarget (\<lambda>q. Inl (Error ''directory down'')) ''<@77>'' ()
        \<lparr>defaultKind = None, ambiguousMessage = None\<rparr>
       = (Inr (Some \<lparr>t_kind = User, t_id = ''77'', t_raw = ''<@77>''\<rparr>), [])
   \<and> resolveDiscordTarget (\<lambda>q. Inl (Error ''directory down'')) ''user:9'' ()
        \<lparr>defaultKind = None, ambiguousMessage = None\<rparr>
       = (Inr (Some \<lparr>t_kind = User, t_id = ''9'', t_raw = ''user:9''\<rparr>), [])"
proof -
  let ?po = "\<lparr>defaultKind = None, ambiguousMessage = None\<rparr>"
  have p: "safeParseDiscordTarget ''<@77>'' ?po
      = Some \<lparr>t_kind = User, t_id = ''77'', t_raw = ''<@77>''\<rparr>"
    by (simp add: safeParseDiscordTarget_def parseDiscordTarget_def trim_def isWhiteSpace_def
        mentionMatch_def startsWith_def slice_def allDigits_def isDigit_def returnTarget_def
        buildMessagingTarget_def Let_def)
  have l: "\<not> isLikelyUsername (trim ''<@77>'')"
    by (simp add: isLikelyUsername_def trim_def isWhiteSpace_def startsWith_def)
  show ?thesis
    using p l
      resolve_explicit_bypasses_directory
        [of "''<@77>''" ?po "\<lparr>t_kind = User, t_id = ''77'', t_raw = ''<@77>''\<rparr>"
          "\<lambda>q. Inl (Error ''directory down'')" "()"]
    by simp
qed

subsection \<open>The raw field of a target\<close>

lemma select_nonempty: "selectDiscordUserMatch q es = Some i \<Longrightarrow> i \<noteq> []"
  by (auto simp: selectDiscordUserMatch_def resolvedId_def Let_def
      split: if_splits option.splits)

lemma resolve_no_lookup_cases:
  assumes "trim raw \<noteq> []"
  shows "resolveDiscordTarget dir raw opts po =
    (case safeParseDiscordTarget raw po of
       Some t \<Rightarrow>
         if t_kind t \<noteq> Channel \<and> \<not> isLikelyUsername (trim raw) then (Inr (Some t), [])
         else if \<not> (isExplicitUserLookup (trim raw) po \<or> isLikelyUsername (trim raw))
           then (Inr (Some t), [])
         else (let q = \<lparr>params = opts, query = trim raw, limit = 5\<rparr>
               in case dir q of
                    Inl e \<Rightarrow> (Inl e, [q])
                  | Inr es \<Rightarrow>
                      (case selectDiscordUserMatch (trim raw) es of
                         None \<Rightarrow> if es = [] then (Inl (Error (noMatchMessage (trim raw))), [q])
                                 else (Inl (Error (multipleMatchMessage (trim raw))), [q])
                       | Some i \<Rightarrow>
                           (Inr (Some \<lparr>t_kind = User, t_id = i, t_raw = trim raw\<rparr>), [q])))
     | None \<Rightarrow>
         if \<not> (isExplicitUserLookup (trim raw) po \<or> isLikelyUsername (trim raw))
           then (parseDiscordTarget raw po, [])
         else (let q = \<lparr>params = opts, query = trim raw, limit = 5\<rparr>
               in case dir q of
                    Inl e \<Rightarrow> (Inl e, [q])
                  | Inr es \<Rightarrow>
                      (case selectDiscordUserMatch (trim raw) es of
                         None \<Rightarrow> if es = [] then (Inl (Error (noMatchMessage (trim raw))), [q])
                                 else (Inl (Error (multipleMatchMessage (trim raw))), [q])
                       | Some i \<Rightarrow>
                           (Inr (Some \<lparr>t_kind = User, t_id = i, t_raw = trim raw\<rparr>), [q]))))"
  using assms
  by (auto simp: resolveDiscordTarget_def Let_def safeParse_trim parse_trim returnTarget_def
      buildMessagingTarget_def
      split: option.splits sum.splits dest: select_nonempty)

lemma resolve_raw_field:
  assumes "fst (resolveDiscordTarget dir raw opts po) = Inr (Some t)"
  shows "t_raw t = trim raw"
proof (cases "trim raw = []")
  case True
  with assms show ?thesis by (simp add: resolveDiscordTarget_def)
next
  case False
  show ?thesis
    using assms unfolding resolve_no_lookup_cases [OF False]
    by (auto simp: Let_def split: option.splits sum.splits if_splits
        dest: safeParse_Some parse_raw_field)
qed

text \<open>
  Claim C5 (amended). Whenever the parser or the resolver constructs and returns a target,
  its \<^verbatim>\<open>raw\<close> field is the input with leading and trailing
  whitespace trimmed: not a further normalized form and not a name taken from the
  directory.
\<close>

theorem target_raw_is_trimmed_input:
  "(parseDiscordTarget raw po = Inr (Some t) \<longrightarrow> t_raw t = trim raw)
   \<and> (fst (resolveDiscordTarget dir raw opts po) = Inr (Some t) \<longrightarrow> t_raw t = trim raw)"
  by (simp add: parse_raw_field resolve_raw_field)

text \<open>
  Claim C5 (amended) at \<^verbatim>\<open>" user:9"\<close>, for the parser and for the resolver.
\<close>

theorem target_raw_witness:
  "parseDiscordTarget '' user:9'' \<lparr>defaultKind = None, ambiguousMessage = None\<rparr>
      = Inr (Some \<lparr>t_kind = User, t_id = ''9'', t_raw = ''user:9''\<rparr>)
   \<and> fst (resolveDiscordTarget (\<lambda>q. Inr []) '' user:9'' ()
        \<lparr>defaultKind = None, ambiguousMessage = None\<rparr>)
      = Inr (Some \<lparr>t_kind = User, t_id = ''9'', t_raw = ''user:9''\<rparr>)
   \<and> trim '' user:9'' = ''user:9''"
proof -
  let ?po = "\<lparr>defaultKind = None, ambiguousMessage = None\<rparr>"
  let ?t = "\<lparr>t_kind = User, t_id = ''9'', t_raw = ''user:9''\<rparr>"
  have p: "parseDiscordTarget '' user:9'' ?po = Inr (Some ?t)"
    by (simp add: parseDiscordTarget_def trim_def isWhiteSpace_def mentionMatch_def
        startsWith_def slice_def returnTarget_def buildMessagingTarget_def Let_def)
  have r: "fst (resolveDiscordTarget (\<lambda>q. Inr []) '' user:9'' () ?po) = Inr (Some ?t)"
    by (simp add: resolveDiscordTarget_def safeParseDiscordTarget_def isLikelyUsername_def
        parseDiscordTarget_def trim_def isWhiteSpace_def mentionMatch_def
        startsWith_def slice_def returnTarget_def buildMessagingTarget_def Let_def)
  show ?thesis
    using p r target_raw_is_trimmed_input [of "'' user:9''" ?po ?t "\<lambda>q. Inr []" "()"]
    by simp
qed

text \<open>
  Claim C5 as stated fails at \<^verbatim>\<open>" user:9"\<close>: the target's
  \<^verbatim>\<open>raw\<close> is \<^verbatim>\<open>"user:9"\<close>, not the input with
  its leading space.
\<close>

theorem target_raw_untrimmed_counterexample:
  "parseDiscordTarget '' user:9'' \<lparr>defaultKind = None, ambiguousMessage = None\<rparr>
      = Inr (Some \<lparr>t_kind = User, t_id = ''9'', t_raw = ''user:9''\<rparr>)
   \<and> t_raw \<lparr>t_kind = User, t_id = ''9'', t_raw = ''user:9''\<rparr> \<noteq> '' user:9''"
  by (simp add: parseDiscordTarget_def trim_def isWhiteSpace_def mentionMatch_def
      startsWith_def slice_def returnTarget_def buildMessagingTarget_def Let_def)

subsection \<open>Free text that ends with a digit\<close>

lemma mentionMatch_startsWith: "mentionMatch s = Some d \<Longrightarrow> startsWith s ''<@''"
  by (simp add: mentionMatch_def split: if_splits)

lemma parse_free_text:
  assumes "trim raw \<noteq> []" "\<not> hasStructuredMarker (trim raw)" "\<not> allDigits (trim raw)"
  shows "parseDiscordTarget raw po
    = Inr (Some \<lparr>t_kind = Channel, t_id = trim raw, t_raw = trim raw\<rparr>)"
proof -
  have "mentionMatch (trim raw) = None"
    using assms(2) mentionMatch_startsWith [of "trim raw"]
    by (cases "mentionMatch (trim raw)") (auto simp: hasStructuredMarker_def)
  then show ?thesis
    using assms
    by (simp add: parseDiscordTarget_def Let_def hasStructuredMarker_def returnTarget_def
        buildMessagingTarget_def)
qed

lemma explicit_lookup_free:
  assumes "\<not> hasStructuredMarker s"
  shows "isExplicitUserLookup s po = (allDigits s \<and> defaultKind po = Some User)"
proof -
  have "mentionMatch s = None"
    using assms mentionMatch_startsWith [of s]
    by (cases "mentionMatch s") (auto simp: hasStructuredMarker_def)
  then show ?thesis
    using assms by (simp add: isExplicitUserLookup_def hasStructuredMarker_def)
qed

text \<open>
  Claim C9 (amended). For every input whose trimmed form starts with no structured marker
  and ends with a decimal digit, the likely-username heuristic is false and the resolver
  issues no directory query; when moreover the trimmed form is not made of digits only (or
  the default kind is channel), the resolver returns the channel target whose id is the
  trimmed input.
\<close>

theorem resolve_digit_suffix_no_lookup:
  assumes "trim raw \<noteq> []" "isDigit (last (trim raw))" "\<not> hasStructuredMarker (trim raw)"
  shows "\<not> isLikelyUsername (trim raw)
    \<and> snd (resolveDiscordTarget dir raw opts po) = []
    \<and> (\<not> allDigits (trim raw) \<or> defaultKind po = Some Channel
        \<longrightarrow> fst (resolveDiscordTarget dir raw opts po)
            = Inr (Some \<lparr>t_kind = Channel, t_id = trim raw, t_raw = trim raw\<rparr>))"
proof -
  have l: "\<not> isLikelyUsername (trim raw)"
    using assms(1,2) by (simp add: isLikelyUsername_def)
  note e = explicit_lookup_free [OF assms(3), of po]
  show ?thesis
  proof (cases "allDigits (trim raw)")
    case False
    have p: "parseDiscordTarget raw po
        = Inr (Some \<lparr>t_kind = Channel, t_id = trim raw, t_raw = trim raw\<rparr>)"
      by (rule parse_free_text [OF assms(1,3) False])
    show ?thesis
      using l e False p
      by (simp add: resolve_no_lookup_cases [OF assms(1)] safeParseDiscordTarget_def)
  next
    case True
    have p: "parseDiscordTarget raw po =
      (case defaultKind po of
         Some k \<Rightarrow> Inr (Some \<lparr>t_kind = k, t_id = trim raw, t_raw = trim raw\<rparr>)
       | None \<Rightarrow> Inl (Error (case ambiguousMessage po of Some m \<Rightarrow> m
                            | None \<Rightarrow> ambiguousRecipientMessage (trim raw))))"
      using parse_allDigits [OF True, of po] by (simp add: parse_trim)
    show ?thesis
    proof (cases "defaultKind po")
      case None
      with l e True p show ?thesis
        by (simp add: resolve_no_lookup_cases [OF assms(1)] safeParseDiscordTarget_def)
    next
      case (Some k)
      with l e True p show ?thesis
        by (cases k)
          (simp_all add: resolve_no_lookup_cases [OF assms(1)] safeParseDiscordTarget_def)
    qed
  qed
qed

text \<open>
  Claim C9 (amended) at \<^verbatim>\<open>john2\<close>, with a directory that rejects every query.
\<close>

theorem resolve_digit_suffix_witness:
  "trim ''john2'' \<noteq> [] \<and> isDigit (last (trim ''john2''))
   \<and> \<not> hasStructuredMarker (trim ''john2'') \<and> \<not> allDigits (trim ''john2'')
   \<and> \<not> isLikelyUsername (trim ''john2'')
   \<and> resolveDiscordTarget (\<lambda>q. Inl (Error ''directory down'')) ''john2'' ()
        \<lparr>defaultKind = None, ambiguousMessage = None\<rparr>
      = (Inr (Some \<lparr>t_kind = Channel, t_id = ''john2'', t_raw = ''john2''\<rparr>), [])"
proof -
  have t: "trim ''john2'' = ''john2''" by (simp add: trim_def isWhiteSpace_def)
  have h1: "trim ''john2'' \<noteq> []" and h2: "isDigit (last (trim ''john2''))"
    and h3: "\<not> hasStructuredMarker (trim ''john2'')" and h4: "\<not> allDigits (trim ''john2'')"
    by (simp_all add: t isDigit_def hasStructuredMarker_def startsWith_def allDigits_def)
  show ?thesis
    using h1 h2 h3 h4
      resolve_digit_suffix_no_lookup [OF h1 h2 h3,
        of "\<lambda>q. Inl (Error ''directory down'')" "()"
           "\<lparr>defaultKind = None, ambiguousMessage = None\<rparr>"]
    by (simp add: t prod_eq_iff)
qed

text \<open>
  Claim C9 as stated fails at \<^verbatim>\<open>123\<close> with no default kind: it
  starts with no marker and ends with a digit, yet the resolver throws the ambiguity error
  of the parser instead of returning a channel target.
\<close>

theorem resolve_digit_only_counterexample:
  "\<not> hasStructuredMarker ''123'' \<and> isDigit (last ''123'')
   \<and> resolveDiscordTarget (\<lambda>q. Inr []) ''123'' ()
        \<lparr>defaultKind = None, ambiguousMessage = None\<rparr>
      = (Inl (Error (ambiguousRecipientMessage ''123'')), [])"
  by (simp add: hasStructuredMarker_def isDigit_def resolveDiscordTarget_def
      safeParseDiscordTarget_def isLikelyUsername_def isExplicitUserLookup_def
      parseDiscordTarget_def trim_def isWhiteSpace_def mentionMatch_def allDigits_def
      startsWith_def slice_def returnTarget_def buildMessagingTarget_def Let_def)

subsection \<open>The outcome of a directory lookup\<close>

text \<open>
  Claim C4. When the resolver queries the directory and the directory answers with a list
  of entries: the query carries the caller's parameters, the trimmed input and the limit 5,
  and it is the only one. If the disambiguator selects nothing, the resolver throws, for an
  empty answer, the error whose text says that the trimmed input, quoted, did not match a
  user and suggests \<^verbatim>\<open>user:<id>\<close>, \<^verbatim>\<open><@id>\<close> or
  \<^verbatim>\<open>channel:<id>\<close>, and for a non-empty answer the error whose text says that
  multiple users matched the trimmed input, quoted, and suggests \<^verbatim>\<open>user:<id>\<close>
  or \<^verbatim>\<open><@id>\<close> to disambiguate. If it selects an id, the resolver returns the
  user target with that id. The texts are written out, with \<open>CHR 0x22\<close> for the
  double quote.
\<close>

theorem resolve_lookup_outcome:
  assumes "snd (resolveDiscordTarget dir raw opts po) = q # qs" "dir q = Inr entries"
  shows "q = \<lparr>params = opts, query = trim raw, limit = 5\<rparr> \<and> qs = []
    \<and> fst (resolveDiscordTarget dir raw opts po) =
        (case selectDiscordUserMatch (trim raw) entries of
           None \<Rightarrow>
             if entries = []
             then Inl (Error (''Discord recipient '' @ [CHR 0x22] @ trim raw @ [CHR 0x22]
                    @ '' did not match a user. Use '' @ [CHR 0x22] @ ''user:<id>'' @ [CHR 0x22]
                    @ '' or '' @ [CHR 0x22] @ ''<@id>'' @ [CHR 0x22] @ '' for DMs, or ''
                    @ [CHR 0x22] @ ''channel:<id>'' @ [CHR 0x22] @ '' for channel messages.''))
             else Inl (Error (''Multiple Discord users matched '' @ [CHR 0x22] @ trim raw @ [CHR 0x22]
                    @ ''. Use '' @ [CHR 0x22] @ ''user:<id>'' @ [CHR 0x22] @ '' or '' @ [CHR 0x22]
                    @ ''<@id>'' @ [CHR 0x22] @ '' to disambiguate.''))
         | Some i \<Rightarrow> Inr (Some \<lparr>t_kind = User, t_id = i, t_raw = trim raw\<rparr>))"
proof (cases "trim raw = []")
  case True
  with assms(1) show ?thesis by (simp add: resolveDiscordTarget_def)
next
  case False
  let ?Q = "\<lparr>params = opts, query = trim raw, limit = 5\<rparr>"
  have q: "q = ?Q \<and> qs = []"
    using assms(1) unfolding resolve_no_lookup_cases [OF False]
    by (auto simp: Let_def split: option.splits sum.splits if_splits)
  then have d: "dir ?Q = Inr entries" using assms(2) by simp
  have "fst (resolveDiscordTarget dir raw opts po) =
        (case selectDiscordUserMatch (trim raw) entries of
           None \<Rightarrow> if entries = [] then Inl (Error (noMatchMessage (trim raw)))
                   else Inl (Error (multipleMatchMessage (trim raw)))
         | Some i \<Rightarrow> Inr (Some \<lparr>t_kind = User, t_id = i, t_raw = trim raw\<rparr>))"
    using assms(1) d unfolding resolve_no_lookup_cases [OF False]
    by (auto simp: Let_def split: option.splits sum.splits if_splits)
  with q show ?thesis
    by (simp add: noMatchMessage_def multipleMatchMessage_def dq_def split: option.splits)
qed

text \<open>
  Claim C4 with an empty answer, with two candidates that both match, and with a lone
  candidate whose id carries the \<^verbatim>\<open>user:\<close> prefix; the two error texts in
  full.
\<close>

theorem resolve_lookup_witness:
  "fst (resolveDiscordTarget (\<lambda>q. Inr []) ''john.doe'' ()
          \<lparr>defaultKind = None, ambiguousMessage = None\<rparr>)
     = Inl (Error (''Discord recipient '' @ [CHR 0x22] @ ''john.doe'' @ [CHR 0x22]
         @ '' did not match a user. Use '' @ [CHR 0x22] @ ''user:<id>'' @ [CHR 0x22]
         @ '' or '' @ [CHR 0x22] @ ''<@id>'' @ [CHR 0x22] @ '' for DMs, or ''
         @ [CHR 0x22] @ ''channel:<id>'' @ [CHR 0x22] @ '' for channel messages.''))
   \<and> fst (resolveDiscordTarget
          (\<lambda>q. Inr [\<lparr>e_kind = Some ''user'', e_id = Some ''1'', e_name = Some ''Alice'',
                       e_handle = None\<rparr>,
                    \<lparr>e_kind = Some ''user'', e_id = Some ''2'', e_name = Some ''alice'',
                       e_handle = None\<rparr>])
          ''alice'' () \<lparr>defaultKind = None, ambiguousMessage = None\<rparr>)
     = Inl (Error (''Multiple Discord users matched '' @ [CHR 0x22] @ ''alice'' @ [CHR 0x22]
         @ ''. Use '' @ [CHR 0x22] @ ''user:<id>'' @ [CHR 0x22] @ '' or '' @ [CHR 0x22]
         @ ''<@id>'' @ [CHR 0x22] @ '' to disambiguate.''))
   \<and> fst (resolveDiscordTarget
          (\<lambda>q. Inr [\<lparr>e_kind = Some ''user'', e_id = Some ''user:5'', e_name = None,
                       e_handle = Some ''@bob''\<rparr>])
          ''bob'' () \<lparr>defaultKind = None, ambiguousMessage = None\<rparr>)
     = Inr (Some \<lparr>t_kind = User, t_id = ''5'', t_raw = ''bob''\<rparr>)"
proof -
  let ?po = "\<lparr>defaultKind = None, ambiguousMessage = None\<rparr>"
  let ?two = "[\<lparr>e_kind = Some ''user'', e_id = Some ''1'', e_name = Some ''Alice'',
                       e_handle = None\<rparr>,
                    \<lparr>e_kind = Some ''user'', e_id = Some ''2'', e_name = Some ''alice'',
                       e_handle = None\<rparr>]"
  let ?one = "[\<lparr>e_kind = Some ''user'', e_id = Some ''user:5'', e_name = None,
                       e_handle = Some ''@bob''\<rparr>]"
  have t: "trim ''john.doe'' = ''john.doe''" "trim ''alice'' = ''alice''" "trim ''bob'' = ''bob''"
    by (simp_all add: trim_def isWhiteSpace_def)
  have s0: "snd (resolveDiscordTarget (\<lambda>q. Inr []) ''john.doe'' () ?po)
      = [\<lparr>params = (), query = ''john.doe'', limit = 5\<rparr>]"
    by code_simp
  have s2: "snd (resolveDiscordTarget (\<lambda>q. Inr ?two) ''alice'' () ?po)
      = [\<lparr>params = (), query = ''alice'', limit = 5\<rparr>]"
    by code_simp
  have s1: "snd (resolveDiscordTarget (\<lambda>q. Inr ?one) ''bob'' () ?po)
      = [\<lparr>params = (), query = ''bob'', limit = 5\<rparr>]"
    by code_simp
  have m0: "selectDiscordUserMatch ''john.doe'' [] = None"
    and m2: "selectDiscordUserMatch ''alice'' ?two = None"
    and m1: "selectDiscordUserMatch ''bob'' ?one = Some ''5''"
    by code_simp+
  show ?thesis
    using resolve_lookup_outcome [OF s0 refl] resolve_lookup_outcome [OF s2 refl]
      resolve_lookup_outcome [OF s1 refl]
    by (simp add: t m0 m1 m2)
qed

subsection \<open>The disambiguator\<close>

lemma index_singleton_filter:
  assumes "{j. j < length xs \<and> P (xs ! j)} = {i}"
  shows "filter P xs = [xs ! i]"
proof -
  have "length (filter P xs) = 1"
    using assms by (simp add: length_filter_conv_card)
  then obtain x where x: "filter P xs = [x]"
    by (cases "filter P xs") auto
  then have "x \<in> set (filter P xs)" by simp
  then have "x \<in> set xs" "P x" by auto
  then obtain k where "k < length xs" "xs ! k = x" by (auto simp: in_set_conv_nth)
  with \<open>P x\<close> have "k \<in> {j. j < length xs \<and> P (xs ! j)}" by simp
  with assms have "k = i" by simp
  with \<open>xs ! k = x\<close> x show ?thesis by simp
qed

lemma filter_singleton_index:
  assumes "length (filter P xs) = 1"
  shows "\<exists>i. {j. j < length xs \<and> P (xs ! j)} = {i} \<and> filter P xs ! 0 = xs ! i"
proof -
  from assms have "card {j. j < length xs \<and> P (xs ! j)} = 1"
    by (simp add: length_filter_conv_card)
  then obtain i where i: "{j. j < length xs \<and> P (xs ! j)} = {i}"
    by (rule card_1_singletonE)
  from index_singleton_filter [OF i] i show ?thesis by auto
qed

lemma select_unfold:
  "selectDiscordUserMatch q es =
     (if filter isUserEntry es = [] then None
      else if length (filter (\<lambda>e. isUserEntry e \<and> isExactMatch (toLowerCase (trim q)) e) es) = 1
        then resolvedId (filter (\<lambda>e. isUserEntry e \<and> isExactMatch (toLowerCase (trim q)) e) es ! 0)
      else if length (filter isUserEntry es) = 1 then resolvedId (filter isUserEntry es ! 0)
      else None)"
  by (simp add: selectDiscordUserMatch_def Let_def)

text \<open>
  Claim C1 (amended). Call an entry a candidate when its kind is
  \<^verbatim>\<open>user\<close> and its id is present and non-empty. The disambiguator
  returns \<open>r\<close> exactly when some candidate, at position \<open>i\<close>, has
  \<open>r\<close> as its id with a leading \<^verbatim>\<open>user:\<close> (in any case)
  removed and trimmed, \<open>r\<close> being non-empty, and either that candidate is the
  only candidate that is an exact normalized match, or the number of candidates that match
  exactly is not one and that candidate is the only candidate. In every other case it
  returns null.
\<close>

theorem select_characterisation:
  "selectDiscordUserMatch q entries = Some r \<longleftrightarrow>
     (\<exists>i. i < length entries \<and> isUserEntry (entries ! i) \<and> resolvedId (entries ! i) = Some r
        \<and> ({j. j < length entries \<and> isUserEntry (entries ! j)
                 \<and> isExactMatch (toLowerCase (trim q)) (entries ! j)} = {i}
           \<or> card {j. j < length entries \<and> isUserEntry (entries ! j)
                 \<and> isExactMatch (toLowerCase (trim q)) (entries ! j)} \<noteq> 1
             \<and> {j. j < length entries \<and> isUserEntry (entries ! j)} = {i}))"
  (is "?L \<longleftrightarrow> (\<exists>i. ?R i)")
proof
  let ?P = "\<lambda>e. isUserEntry e \<and> isExactMatch (toLowerCase (trim q)) e"
  let ?E = "filter ?P entries"
  let ?U = "filter isUserEntry entries"
  assume L: ?L
  then have ne: "?U \<noteq> []" by (auto simp: select_unfold split: if_splits)
  show "\<exists>i. ?R i"
  proof (cases "length ?E = 1")
    case True
    with L ne have r: "resolvedId (?E ! 0) = Some r" by (simp add: select_unfold)
    from filter_singleton_index [OF True] obtain i
      where i: "{j. j < length entries \<and> ?P (entries ! j)} = {i}" "?E ! 0 = entries ! i"
      by blast
    from i(1) have "i \<in> {j. j < length entries \<and> ?P (entries ! j)}" by simp
    then have "i < length entries" "isUserEntry (entries ! i)" by simp_all
    with r i have "?R i" by simp
    then show ?thesis ..
  next
    case False
    with L ne have u: "length ?U = 1" and r: "resolvedId (?U ! 0) = Some r"
      by (auto simp: select_unfold split: if_splits)
    from filter_singleton_index [OF u] obtain i
      where i: "{j. j < length entries \<and> isUserEntry (entries ! j)} = {i}" "?U ! 0 = entries ! i"
      by blast
    from i(1) have "i \<in> {j. j < length entries \<and> isUserEntry (entries ! j)}" by simp
    then have "i < length entries" "isUserEntry (entries ! i)" by simp_all
    moreover from False
    have "card {j. j < length entries \<and> ?P (entries ! j)} \<noteq> 1"
      by (simp add: length_filter_conv_card)
    ultimately have "?R i" using r i by simp
    then show ?thesis ..
  qed
next
  let ?P = "\<lambda>e. isUserEntry e \<and> isExactMatch (toLowerCase (trim q)) e"
  let ?E = "filter ?P entries"
  let ?U = "filter isUserEntry entries"
  assume "\<exists>i. ?R i"
  then obtain i where R: "?R i" ..
  then have b: "i < length entries" "isUserEntry (entries ! i)"
    and r: "resolvedId (entries ! i) = Some r" by simp_all
  from b have ne: "?U \<noteq> []" by (auto simp: filter_empty_conv)
  from R consider
      (exact) "{j. j < length entries \<and> ?P (entries ! j)} = {i}"
    | (lone) "card {j. j < length entries \<and> ?P (entries ! j)} \<noteq> 1"
        "{j. j < length entries \<and> isUserEntry (entries ! j)} = {i}"
    by blast
  then show ?L
  proof cases
    case exact
    from index_singleton_filter [OF exact] have "?E = [entries ! i]" .
    with ne r show ?thesis by (simp add: select_unfold)
  next
    case lone
    from lone(1) have "length ?E \<noteq> 1" by (simp add: length_filter_conv_card)
    moreover from index_singleton_filter [OF lone(2)] have "?U = [entries ! i]" .
    ultimately show ?thesis using r by (simp add: select_unfold)
  qed
qed

lemmas eval_defs = selectDiscordUserMatch_def isUserEntry_def isExactMatch_def resolvedId_def
  stripPrefix_def stripUserPrefixIgnoreCase_def toLowerCase_def lowerChar_def trim_def
  isWhiteSpace_def startsWith_def slice_def claimedSelection_def Let_def

text \<open>
  Claim C1 as stated fails in both directions. A single entry of kind
  \<^verbatim>\<open>channel\<close> named \<^verbatim>\<open>bob\<close> is the only entry
  and the only exact match for \<^verbatim>\<open>bob\<close>, yet nothing is selected.
  With a user entry and a channel entry and the query \<^verbatim>\<open>xyz\<close>,
  nothing matches exactly and two entries were passed in, yet the user entry is selected.
\<close>

theorem select_counterexample:
  "selectDiscordUserMatch ''bob''
      [\<lparr>e_kind = Some ''channel'', e_id = Some ''5'', e_name = Some ''bob'', e_handle = None\<rparr>]
     = None
   \<and> claimedSelection ''bob''
      [\<lparr>e_kind = Some ''channel'', e_id = Some ''5'', e_name = Some ''bob'', e_handle = None\<rparr>]
   \<and> selectDiscordUserMatch ''xyz''
      [\<lparr>e_kind = Some ''user'', e_id = Some ''5'', e_name = None, e_handle = None\<rparr>,
       \<lparr>e_kind = Some ''channel'', e_id = Some ''6'', e_name = None, e_handle = None\<rparr>]
     = Some ''5''
   \<and> \<not> claimedSelection ''xyz''
      [\<lparr>e_kind = Some ''user'', e_id = Some ''5'', e_name = None, e_handle = None\<rparr>,
       \<lparr>e_kind = Some ''channel'', e_id = Some ''6'', e_name = None, e_handle = None\<rparr>]"
  by (simp add: eval_defs)

text \<open>
  Claim C1 (amended) on the examples of the specification: a lone candidate with handle
  \<^verbatim>\<open>@bob\<close> is selected for the query \<^verbatim>\<open>xyz\<close>, and it is the only
  candidate; two candidates named \<^verbatim>\<open>Alice\<close> and \<^verbatim>\<open>alice\<close> both match
  \<^verbatim>\<open>alice\<close> and nothing is selected. Among two candidates, the one whose name,
  handle or id matches the query exactly is selected: by name ignoring case and surrounding
  spaces, by handle without its \<^verbatim>\<open>@\<close>, and by id without its
  \<^verbatim>\<open>user:\<close> prefix.
\<close>

theorem select_witness:
  "selectDiscordUserMatch ''xyz''
      [\<lparr>e_kind = Some ''user'', e_id = Some ''5'', e_name = None, e_handle = Some ''@bob''\<rparr>]
     = Some ''5''
   \<and> selectDiscordUserMatch ''alice''
      [\<lparr>e_kind = Some ''user'', e_id = Some ''1'', e_name = Some ''Alice'', e_handle = None\<rparr>,
       \<lparr>e_kind = Some ''user'', e_id = Some ''2'', e_name = Some ''alice'', e_handle = None\<rparr>]
     = None
   \<and> (\<exists>i. i < length
          [\<lparr>e_kind = Some ''user'', e_id = Some ''5'', e_name = None, e_handle = Some ''@bob''\<rparr>]
        \<and> {j. j < length
          [\<lparr>e_kind = Some ''user'', e_id = Some ''5'', e_name = None, e_handle = Some ''@bob''\<rparr>]
           \<and> isUserEntry
              ([\<lparr>e_kind = Some ''user'', e_id = Some ''5'', e_name = None,
                  e_handle = Some ''@bob''\<rparr>] ! j)} = {i})
   \<and> selectDiscordUserMatch '' ALICE ''
      [\<lparr>e_kind = Some ''user'', e_id = Some ''1'', e_name = Some ''Alice '', e_handle = None\<rparr>,
       \<lparr>e_kind = Some ''user'', e_id = Some ''2'', e_name = Some ''Bob'', e_handle = None\<rparr>]
     = Some ''1''
   \<and> selectDiscordUserMatch ''bob''
      [\<lparr>e_kind = Some ''user'', e_id = Some ''1'', e_name = None, e_handle = Some ''@al''\<rparr>,
       \<lparr>e_kind = Some ''user'', e_id = Some ''2'', e_name = None, e_handle = Some ''@Bob''\<rparr>]
     = Some ''2''
   \<and> selectDiscordUserMatch ''7''
      [\<lparr>e_kind = Some ''user'', e_id = Some ''User:7 '', e_name = None, e_handle = None\<rparr>,
       \<lparr>e_kind = Some ''user'', e_id = Some ''8'', e_name = None, e_handle = None\<rparr>]
     = Some ''7''"
proof -
  let ?es = "[\<lparr>e_kind = Some ''user'', e_id = Some ''5'', e_name = None, e_handle = Some ''@bob''\<rparr>]"
  have a: "selectDiscordUserMatch ''xyz'' ?es = Some ''5''"
    by (simp add: eval_defs)
  have b: "selectDiscordUserMatch ''alice''
      [\<lparr>e_kind = Some ''user'', e_id = Some ''1'', e_name = Some ''Alice'', e_handle = None\<rparr>,
       \<lparr>e_kind = Some ''user'', e_id = Some ''2'', e_name = Some ''alice'', e_handle = None\<rparr>]
     = None"
    by code_simp
  have x: "{j. j < length ?es \<and> isUserEntry (?es ! j)
             \<and> isExactMatch (toLowerCase (trim ''xyz'')) (?es ! j)} = {}"
    by (auto simp: eval_defs)
  from a select_characterisation [of "''xyz''" ?es "''5''"] x
  have "\<exists>i. i < length ?es \<and> {j. j < length ?es \<and> isUserEntry (?es ! j)} = {i}"
    by auto
  have c: "selectDiscordUserMatch '' ALICE ''
      [\<lparr>e_kind = Some ''user'', e_id = Some ''1'', e_name = Some ''Alice '', e_handle = None\<rparr>,
       \<lparr>e_kind = Some ''user'', e_id = Some ''2'', e_name = Some ''Bob'', e_handle = None\<rparr>]
     = Some ''1''"
    by code_simp
  have d: "selectDiscordUserMatch ''bob''
      [\<lparr>e_kind = Some ''user'', e_id = Some ''1'', e_name = None, e_handle = Some ''@al''\<rparr>,
       \<lparr>e_kind = Some ''user'', e_id = Some ''2'', e_name = None, e_handle = Some ''@Bob''\<rparr>]
     = Some ''2''"
    by code_simp
  have e: "selectDiscordUserMatch ''7''
      [\<lparr>e_kind = Some ''user'', e_id = Some ''User:7 '', e_name = None, e_handle = None\<rparr>,
       \<lparr>e_kind = Some ''user'', e_id = Some ''8'', e_name = None, e_handle = None\<rparr>]
     = Some ''7''"
    by code_simp
  from a b c d e \<open>\<exists>i. i < length ?es \<and> {j. j < length ?es \<and> isUserEntry (?es ! j)} = {i}\<close>
  show ?thesis by blast
qed

end
